theory Spec2Isabelle
  imports Complex_Main
begin

section \<open>JavaScript values used by the catalogue routes\<close>

text \<open>
  A JavaScript number that reaches the route code is either \<open>NaN\<close> (what
  \<open>Number(s)\<close> yields for a string that is not numeric) or a finite value, kept here
  as a rational. The infinities are not represented.
\<close>

datatype jsnum = NaN | Num rat

text \<open>
  The value of one comparison cell: \<open>null\<close>, a string, a number or a boolean, the
  kinds of value the schema fields listed in \<open>specKeys\<close> can hold.
\<close>

datatype jsval = JNull | JStr string | JNum rat | JBool bool

text \<open>
  \<open>String(v)\<close>. The rendering of a number (ECMAScript \<open>Number::toString\<close>)
  is a built-in of the host and is a parameter.
\<close>

fun js_String :: "(rat \<Rightarrow> string) \<Rightarrow> jsval \<Rightarrow> string" where
  "js_String numStr JNull = ''null''"
| "js_String numStr (JStr s) = s"
| "js_String numStr (JNum r) = numStr r"
| "js_String numStr (JBool b) = (if b then ''true'' else ''false'')"

text \<open>Truthiness of an optional number: absent, \<open>null\<close> and \<open>0\<close> are falsy.\<close>

fun truthy :: "rat option \<Rightarrow> bool" where
  "truthy None = False"
| "truthy (Some r) = (r \<noteq> 0)"

text \<open>\<open>s.split(d)\<close> for a one-character separator.\<close>

fun split_on :: "char \<Rightarrow> string \<Rightarrow> string list" where
  "split_on d [] = [[]]"
| "split_on d (c # cs) =
     (if c = d then [] # split_on d cs
      else (case split_on d cs of [] \<Rightarrow> [[c]] | p # ps \<Rightarrow> (c # p) # ps))"

text \<open>
  \<open>trim\<close>, \<open>toUpperCase\<close> and \<open>toLowerCase\<close> on ASCII text: white space
  and letters outside ASCII are left as they are.
\<close>

definition is_space :: "char \<Rightarrow> bool" where
  "is_space c = ((of_char c :: nat) \<in> {9, 10, 11, 12, 13, 32})"

definition trim :: "string \<Rightarrow> string" where
  "trim s = rev (dropWhile is_space (rev (dropWhile is_space s)))"

definition upper_char :: "char \<Rightarrow> char" where
  "upper_char c =
     (let n = (of_char c :: nat) in if 97 \<le> n \<and> n \<le> 122 then char_of (n - 32) else c)"

definition lower_char :: "char \<Rightarrow> char" where
  "lower_char c =
     (let n = (of_char c :: nat) in if 65 \<le> n \<and> n \<le> 90 then char_of (n + 32) else c)"

definition toUpperCase :: "string \<Rightarrow> string" where
  "toUpperCase s = map upper_char s"

definition toLowerCase :: "string \<Rightarrow> string" where
  "toLowerCase s = map lower_char s"

section \<open>The Car document\<close>

text \<open>
  The fields of the Car schema that the modelled routes read. Fields the schema marks
  \<open>required\<close> are always present; every other field may be absent. \<open>car_id\<close>
  is \<open>_id.toString()\<close>, \<open>range_km\<close> is the schema's \<open>range\<close>,
  \<open>price_min\<close> and \<open>price_max\<close> are \<open>price.min\<close> and \<open>price.max\<close>.
\<close>

datatype driveType = FWD | RWD | AWD | FourWD

fun driveType_str :: "driveType \<Rightarrow> string" where
  "driveType_str FWD = ''FWD''"
| "driveType_str RWD = ''RWD''"
| "driveType_str AWD = ''AWD''"
| "driveType_str FourWD = ''4WD''"

record engine =
  displacement :: "rat option"
  cylinders :: "rat option"
  turbo :: "bool option"

record price =
  price_min :: "rat option"
  price_max :: "rat option"

record car =
  car_id :: string
  brand :: string
  model :: string
  bodyType :: string
  fuelType :: string
  transmission :: string
  driveType :: "driveType option"
  engine :: "engine option"
  powerBHP :: "rat option"
  torqueNm :: "rat option"
  topSpeed :: "rat option"
  zeroToHundred :: "rat option"
  mileage :: "rat option"
  range_km :: "rat option"
  price :: "price option"
  launchYear :: "rat option"
  safetyRating :: "rat option"
  seatingCapacity :: "rat option"

section \<open>buildComparison\<close>

definition specKeys :: "(string \<times> string) list" where
  "specKeys =
     [(''brand'', ''Brand''),
      (''model'', ''Model''),
      (''bodyType'', ''Body Type''),
      (''fuelType'', ''Fuel Type''),
      (''transmission'', ''Transmission''),
      (''driveType'', ''Drive Type''),
      (''powerBHP'', ''Power (BHP)''),
      (''torqueNm'', ''Torque (Nm)''),
      (''topSpeed'', ''Top Speed (km/h)''),
      (''zeroToHundred'', ''0-100 km/h (s)''),
      (''mileage'', ''Mileage (km/L)''),
      (''range'', ''Range (km)''),
      (''seatingCapacity'', ''Seating Capacity''),
      (''safetyRating'', ''Safety Rating''),
      (''launchYear'', ''Launch Year''),
      (''engine.displacement'', ''Engine (cc)''),
      (''engine.cylinders'', ''Cylinders''),
      (''engine.turbo'', ''Turbo''),
      (''price'', ''Price (INR)'')]"

text \<open>\<open>x ?? null\<close> for an optional number or boolean.\<close>

fun num_or_null :: "rat option \<Rightarrow> jsval" where
  "num_or_null None = JNull"
| "num_or_null (Some r) = JNum r"

fun bool_or_null :: "bool option \<Rightarrow> jsval" where
  "bool_or_null None = JNull"
| "bool_or_null (Some b) = JBool b"

text \<open>\<open>c[key] ?? null\<close> for a key without a dot.\<close>

definition car_prop :: "car \<Rightarrow> string \<Rightarrow> jsval" where
  "car_prop c k =
     (if k = ''brand'' then JStr (brand c)
      else if k = ''model'' then JStr (model c)
      else if k = ''bodyType'' then JStr (bodyType c)
      else if k = ''fuelType'' then JStr (fuelType c)
      else if k = ''transmission'' then JStr (transmission c)
      else if k = ''driveType'' then
        (case driveType c of None \<Rightarrow> JNull | Some d \<Rightarrow> JStr (driveType_str d))
      else if k = ''powerBHP'' then num_or_null (powerBHP c)
      else if k = ''torqueNm'' then num_or_null (torqueNm c)
      else if k = ''topSpeed'' then num_or_null (topSpeed c)
      else if k = ''zeroToHundred'' then num_or_null (zeroToHundred c)
      else if k = ''mileage'' then num_or_null (mileage c)
      else if k = ''range'' then num_or_null (range_km c)
      else if k = ''seatingCapacity'' then num_or_null (seatingCapacity c)
      else if k = ''safetyRating'' then num_or_null (safetyRating c)
      else if k = ''launchYear'' then num_or_null (launchYear c)
      else JNull)"

text \<open>
  \<open>c[parts[0]]?.[parts[1]] ?? null\<close>. The only dotted keys of \<open>specKeys\<close> lead
  into the \<open>engine\<close> sub-document.
\<close>

definition nested_prop :: "car \<Rightarrow> string \<Rightarrow> string \<Rightarrow> jsval" where
  "nested_prop c p0 p1 =
     (if p0 = ''engine'' then
        (case engine c of
           None \<Rightarrow> JNull
         | Some e \<Rightarrow>
             (if p1 = ''displacement'' then num_or_null (displacement e)
              else if p1 = ''cylinders'' then num_or_null (cylinders e)
              else if p1 = ''turbo'' then bool_or_null (turbo e)
              else JNull))
      else JNull)"

text \<open>The rupee sign, as its UTF-8 bytes.\<close>

definition rupee :: string where
  "rupee = [CHR 0xE2, CHR 0x82, CHR 0xB9]"

text \<open>
  The price cell. \<open>fmt\<close> is \<open>toLocaleString('en-IN')\<close>, a built-in of the host.
  \<open>c.price?.min\<close> is \<open>undefined\<close> when the record has no price.
\<close>

definition opt_min :: "car \<Rightarrow> rat option" where
  "opt_min c = (case price c of None \<Rightarrow> None | Some p \<Rightarrow> price_min p)"

definition opt_max :: "car \<Rightarrow> rat option" where
  "opt_max c = (case price c of None \<Rightarrow> None | Some p \<Rightarrow> price_max p)"

definition price_value :: "(rat \<Rightarrow> string) \<Rightarrow> car \<Rightarrow> jsval" where
  "price_value fmt c =
     (if truthy (opt_min c) \<and> truthy (opt_max c) then
        (if opt_min c = opt_max c
         then JStr (rupee @ fmt (the (opt_min c)))
         else JStr (rupee @ fmt (the (opt_min c)) @ '' - '' @ rupee @ fmt (the (opt_max c))))
      else if truthy (opt_min c) then JStr (rupee @ fmt (the (opt_min c)))
      else if truthy (opt_max c) then JStr (rupee @ fmt (the (opt_max c)))
      else JNull)"

definition spec_value :: "(rat \<Rightarrow> string) \<Rightarrow> string \<Rightarrow> car \<Rightarrow> jsval" where
  "spec_value fmt k c =
     (if CHR ''.'' \<in> set k then
        (case split_on CHR ''.'' k of
           p0 # p1 # rest \<Rightarrow> nested_prop c p0 p1
         | _ \<Rightarrow> JNull)
      else if k = ''price'' then price_value fmt c
      else car_prop c k)"

record cell =
  carId :: string
  cell_value :: jsval

record row =
  row_key :: string
  row_label :: string
  row_values :: "cell list"
  differs :: bool

definition build_row ::
  "(rat \<Rightarrow> string) \<Rightarrow> (rat \<Rightarrow> string) \<Rightarrow> car list \<Rightarrow> string \<times> string \<Rightarrow> row" where
  "build_row fmt numStr cars kl =
     (let vals = map (\<lambda>c. \<lparr>carId = car_id c, cell_value = spec_value fmt (fst kl) c\<rparr>) cars;
          base = (case vals of [] \<Rightarrow> ''undefined'' | v # _ \<Rightarrow> js_String numStr (cell_value v))
      in \<lparr>row_key = fst kl, row_label = snd kl, row_values = vals,
          differs = list_ex (\<lambda>v. js_String numStr (cell_value v) \<noteq> base) vals\<rparr>)"

definition buildComparison ::
  "(rat \<Rightarrow> string) \<Rightarrow> (rat \<Rightarrow> string) \<Rightarrow> car list \<Rightarrow> row list" where
  "buildComparison fmt numStr cars = map (build_row fmt numStr cars) specKeys"

section \<open>POST /compare\<close>

text \<open>
  \<open>req.body?.ids\<close>: missing or falsy, a truthy value that is not an array, or an
  array. An element of the array is a string or some other JSON value; the handler
  treats every non-string element alike.
\<close>

datatype id_elem = IdStr string | IdOther

datatype ids_field = IdsFalsy | IdsNotArray | IdsArray "id_elem list"

datatype compare_response =
    Status400 string "id_elem list"
  | Status404 string "string list"
  | Status500 string
  | Status200 "car list" "row list"

text \<open>
  \<open>!id || typeof id !== 'string' || !mongoose.Types.ObjectId.isValid(id)\<close>;
  \<open>isValid\<close> belongs to the driver and is a parameter.
\<close>

fun invalid_id :: "(string \<Rightarrow> bool) \<Rightarrow> id_elem \<Rightarrow> bool" where
  "invalid_id isValid IdOther = True"
| "invalid_id isValid (IdStr s) = (s = [] \<or> \<not> isValid s)"

fun id_string :: "id_elem \<Rightarrow> string" where
  "id_string (IdStr s) = s"
| "id_string IdOther = []"

text \<open>
  The handler. \<open>Car_find ids\<close> is what the store returns for
  \<open>Car.find({ _id: { $in: ids } }).lean()\<close>, in whatever order the store chooses.
\<close>

definition compare_cars ::
  "(string \<Rightarrow> bool) \<Rightarrow> (rat \<Rightarrow> string) \<Rightarrow> (rat \<Rightarrow> string) \<Rightarrow>
   (string list \<Rightarrow> car list) \<Rightarrow> ids_field \<Rightarrow> compare_response" where
  "compare_cars isValid fmt numStr Car_find body =
     (case body of
        IdsFalsy \<Rightarrow> Status400 ''Request body must include \"ids\" array'' []
      | IdsNotArray \<Rightarrow> Status400 ''\"ids\" must be an array'' []
      | IdsArray elems \<Rightarrow>
          if length elems < 2 \<or> length elems > 4
          then Status400 ''Provide between 2 and 4 car ids in \"ids\" array'' []
          else
            let invalidIds = filter (invalid_id isValid) elems in
            if length invalidIds > 0
            then Status400 ''One or more ids are invalid'' invalidIds
            else
              let ids = map id_string elems;
                  cars = Car_find ids;
                  foundIds = map car_id cars;
                  missing = filter (\<lambda>i. i \<notin> set foundIds) ids
              in
              if length missing \<noteq> 0
              then Status404 ''Some cars were not found'' missing
              else
                let orderedCars =
                      List.map_filter (\<lambda>i. find (\<lambda>c. car_id c = i) cars) ids
                in
                if length orderedCars \<noteq> length ids
                then Status500 ''Failed to order cars correctly''
                else Status200 orderedCars (buildComparison fmt numStr orderedCars))"

section \<open>GET / (the listing)\<close>

text \<open>
  \<open>req.query\<close>, destructured. Each parameter is a string or \<open>undefined\<close>
  (\<open>None\<close>); the defaults of the destructuring (\<open>page = 1\<close>, \<open>limit = 12\<close>,
  \<open>sort = 'newest'\<close>) apply where the parameter is \<open>undefined\<close>. Arrays and
  objects, which the query parser builds from repeated or bracketed keys, are not
  represented.
\<close>

record params =
  req_page :: "string option"
  req_limit :: "string option"
  req_q :: "string option"
  req_brand :: "string option"
  req_bodyType :: "string option"
  req_fuelType :: "string option"
  req_transmission :: "string option"
  req_minPrice :: "string option"
  req_maxPrice :: "string option"
  req_minPower :: "string option"
  req_launchYear :: "string option"
  req_discontinued :: "string option"
  req_tags :: "string option"
  req_sort :: "string option"

text \<open>
  The clauses pushed onto \<open>query.$or\<close>: a field path with its \<open>$gte\<close> and
  \<open>$lte\<close> bounds, or an \<open>$and\<close> of clauses.
\<close>

datatype bound = Gte rat | Lte rat

datatype clause = Field string "bound list" | AndClause "clause list"

text \<open>The filter object \<open>query\<close>; a key that was never set is \<open>None\<close>.\<close>

record query =
  qry_text :: "string option"
  qry_brand :: "string option"
  qry_bodyType :: "string option"
  qry_fuelType :: "string option"
  qry_transmission :: "string option"
  qry_or :: "clause list option"
  qry_powerBHP :: "rat option"
  qry_launchYear :: "rat option"
  qry_discontinued :: "bool option"
  qry_tags :: "string list option"

definition empty_query :: query where
  "empty_query =
     \<lparr>qry_text = None, qry_brand = None, qry_bodyType = None, qry_fuelType = None,
      qry_transmission = None, qry_or = None, qry_powerBHP = None, qry_launchYear = None,
      qry_discontinued = None, qry_tags = None\<rparr>"

text \<open>A string parameter is truthy when it is present and not empty.\<close>

fun present :: "string option \<Rightarrow> bool" where
  "present None = False"
| "present (Some s) = (s \<noteq> [])"

text \<open>\<open>q && typeof q === 'string' && q.trim()\<close> and the four filters after it.\<close>

definition text_filter :: "params \<Rightarrow> query \<Rightarrow> query" where
  "text_filter p qy =
     (case req_q p of
        None \<Rightarrow> qy
      | Some s \<Rightarrow> if s \<noteq> [] \<and> trim s \<noteq> [] then qy\<lparr>qry_text := Some (trim s)\<rparr> else qy)"

definition brand_filter :: "params \<Rightarrow> query \<Rightarrow> query" where
  "brand_filter p qy =
     (case req_brand p of
        None \<Rightarrow> qy
      | Some s \<Rightarrow>
          if s \<noteq> [] \<and> trim s \<noteq> [] then qy\<lparr>qry_brand := Some (toUpperCase (trim s))\<rparr>
          else qy)"

definition bodyType_filter :: "params \<Rightarrow> query \<Rightarrow> query" where
  "bodyType_filter p qy =
     (case req_bodyType p of
        None \<Rightarrow> qy
      | Some s \<Rightarrow> if s \<noteq> [] then qy\<lparr>qry_bodyType := Some (trim s)\<rparr> else qy)"

definition fuelType_filter :: "params \<Rightarrow> query \<Rightarrow> query" where
  "fuelType_filter p qy =
     (case req_fuelType p of
        None \<Rightarrow> qy
      | Some s \<Rightarrow> if s \<noteq> [] then qy\<lparr>qry_fuelType := Some (trim s)\<rparr> else qy)"

definition transmission_filter :: "params \<Rightarrow> query \<Rightarrow> query" where
  "transmission_filter p qy =
     (case req_transmission p of
        None \<Rightarrow> qy
      | Some s \<Rightarrow> if s \<noteq> [] then qy\<lparr>qry_transmission := Some (trim s)\<rparr> else qy)"

text \<open>
  \<open>x ? Number(x) : null\<close>. \<open>toNum\<close> is the built-in \<open>Number\<close> on strings, a
  parameter; \<open>None\<close> is \<open>null\<close>.
\<close>

definition number_or_null :: "(string \<Rightarrow> jsnum) \<Rightarrow> string option \<Rightarrow> jsnum option" where
  "number_or_null toNum x =
     (case x of None \<Rightarrow> None | Some s \<Rightarrow> if s \<noteq> [] then Some (toNum s) else None)"

text \<open>The three clauses pushed when both bounds are given, and the two one-sided pairs.\<close>

definition range_clauses :: "rat \<Rightarrow> rat \<Rightarrow> clause list" where
  "range_clauses lo hi =
     [Field ''price.min'' [Gte lo, Lte hi],
      Field ''price.max'' [Gte lo, Lte hi],
      AndClause [Field ''price.min'' [Lte lo], Field ''price.max'' [Gte hi]]]"

definition min_clauses :: "rat \<Rightarrow> clause list" where
  "min_clauses lo = [Field ''price.max'' [Gte lo], Field ''price.min'' [Gte lo]]"

definition max_clauses :: "rat \<Rightarrow> clause list" where
  "max_clauses hi = [Field ''price.min'' [Lte hi], Field ''price.max'' [Lte hi]]"

text \<open>
  The price block. \<open>Inl\<close> carries the message of a \<open>400\<close> response returned from
  inside the block.
\<close>

definition price_filter :: "(string \<Rightarrow> jsnum) \<Rightarrow> params \<Rightarrow> query \<Rightarrow> string + query" where
  "price_filter toNum p qy =
     (if present (req_minPrice p) \<or> present (req_maxPrice p) then
        (case (number_or_null toNum (req_minPrice p), number_or_null toNum (req_maxPrice p)) of
           (Some NaN, _) \<Rightarrow> Inl ''Invalid minPrice value''
         | (_, Some NaN) \<Rightarrow> Inl ''Invalid maxPrice value''
         | (Some (Num lo), Some (Num hi)) \<Rightarrow>
             if lo > hi then Inl ''minPrice cannot be greater than maxPrice''
             else Inr (qy\<lparr>qry_or := Some (range_clauses lo hi)\<rparr>)
         | (Some (Num lo), None) \<Rightarrow> Inr (qy\<lparr>qry_or := Some (min_clauses lo)\<rparr>)
         | (None, Some (Num hi)) \<Rightarrow> Inr (qy\<lparr>qry_or := Some (max_clauses hi)\<rparr>)
         | (None, None) \<Rightarrow> Inr (qy\<lparr>qry_or := Some []\<rparr>))
      else Inr qy)"

definition power_filter :: "(string \<Rightarrow> jsnum) \<Rightarrow> params \<Rightarrow> query \<Rightarrow> string + query" where
  "power_filter toNum p qy =
     (case number_or_null toNum (req_minPower p) of
        None \<Rightarrow> Inr qy
      | Some NaN \<Rightarrow> Inl ''Invalid minPower value''
      | Some (Num bhp) \<Rightarrow> Inr (qy\<lparr>qry_powerBHP := Some bhp\<rparr>))"

definition year_filter :: "(string \<Rightarrow> jsnum) \<Rightarrow> params \<Rightarrow> query \<Rightarrow> string + query" where
  "year_filter toNum p qy =
     (case number_or_null toNum (req_launchYear p) of
        None \<Rightarrow> Inr qy
      | Some NaN \<Rightarrow> Inl ''Invalid launchYear value''
      | Some (Num year) \<Rightarrow> Inr (qy\<lparr>qry_launchYear := Some year\<rparr>))"

definition discontinued_filter :: "params \<Rightarrow> query \<Rightarrow> query" where
  "discontinued_filter p qy =
     (case req_discontinued p of
        None \<Rightarrow> qy
      | Some s \<Rightarrow> qy\<lparr>qry_discontinued := Some (s = ''true'')\<rparr>)"

definition tags_filter :: "params \<Rightarrow> query \<Rightarrow> query" where
  "tags_filter p qy =
     (case req_tags p of
        None \<Rightarrow> qy
      | Some s \<Rightarrow>
          if s \<noteq> [] then
            (let tagArr = filter (\<lambda>t. t \<noteq> []) (map (\<lambda>t. toLowerCase (trim t)) (split_on CHR '','' s))
             in if tagArr \<noteq> [] then qy\<lparr>qry_tags := Some tagArr\<rparr> else qy)
          else qy)"

text \<open>
  The filter blocks in the order of the handler; the first \<open>400\<close> ends the request.
\<close>

definition compile_query :: "(string \<Rightarrow> jsnum) \<Rightarrow> params \<Rightarrow> string + query" where
  "compile_query toNum p =
     (case price_filter toNum p
             (transmission_filter p (fuelType_filter p (bodyType_filter p
               (brand_filter p (text_filter p empty_query))))) of
        Inl m \<Rightarrow> Inl m
      | Inr q1 \<Rightarrow>
          (case power_filter toNum p q1 of
             Inl m \<Rightarrow> Inl m
           | Inr q2 \<Rightarrow>
               (case year_filter toNum p q2 of
                  Inl m \<Rightarrow> Inl m
                | Inr q3 \<Rightarrow> Inr (tags_filter p (discontinued_filter p q3)))))"

subsection \<open>Pagination and sort\<close>

text \<open>
  \<open>Number(x) || d\<close>: \<open>NaN\<close> and \<open>0\<close> are falsy. A parameter left
  \<open>undefined\<close> takes the numeric default of the destructuring.
\<close>

fun or_default :: "jsnum \<Rightarrow> rat \<Rightarrow> rat" where
  "or_default NaN d = d"
| "or_default (Num r) d = (if r = 0 then d else r)"

definition number_of_param :: "(string \<Rightarrow> jsnum) \<Rightarrow> string option \<Rightarrow> rat \<Rightarrow> jsnum" where
  "number_of_param toNum x dflt = (case x of None \<Rightarrow> Num dflt | Some s \<Rightarrow> toNum s)"

definition numericLimit :: "(string \<Rightarrow> jsnum) \<Rightarrow> string option \<Rightarrow> rat" where
  "numericLimit toNum lmt = min (max (or_default (number_of_param toNum lmt 12) 12) 1) 50"

definition numericPage :: "(string \<Rightarrow> jsnum) \<Rightarrow> string option \<Rightarrow> rat" where
  "numericPage toNum pg = max (or_default (number_of_param toNum pg 1) 1) 1"

text \<open>
  What \<open>SORT_FIELDS[sort]\<close> can evaluate to: one of the table's own sort
  specifications (a field and a direction), or a member inherited from
  \<open>Object.prototype\<close>, since \<open>SORT_FIELDS\<close> is an object literal.
\<close>

datatype sort_value = SortBy string int | Inherited string

definition SORT_FIELDS :: "(string \<times> sort_value) list" where
  "SORT_FIELDS =
     [(''newest'', SortBy ''createdAt'' (- 1)),
      (''oldest'', SortBy ''createdAt'' 1),
      (''priceAsc'', SortBy ''price.min'' 1),
      (''priceDesc'', SortBy ''price.max'' (- 1)),
      (''powerAsc'', SortBy ''powerBHP'' 1),
      (''powerDesc'', SortBy ''powerBHP'' (- 1)),
      (''yearAsc'', SortBy ''launchYear'' 1),
      (''yearDesc'', SortBy ''launchYear'' (- 1)),
      (''mileageAsc'', SortBy ''mileage'' 1),
      (''mileageDesc'', SortBy ''mileage'' (- 1))]"

definition Object_prototype :: "string list" where
  "Object_prototype =
     [''constructor'', ''__defineGetter__'', ''__defineSetter__'', ''hasOwnProperty'',
      ''__lookupGetter__'', ''__lookupSetter__'', ''isPrototypeOf'', ''propertyIsEnumerable'',
      ''toString'', ''valueOf'', ''__proto__'', ''toLocaleString'']"

text \<open>
  Property lookup \<open>SORT_FIELDS[k]\<close>: own properties first, then the prototype;
  \<open>None\<close> is \<open>undefined\<close>.
\<close>

definition SORT_FIELDS_get :: "string \<Rightarrow> sort_value option" where
  "SORT_FIELDS_get k =
     (case map_of SORT_FIELDS k of
        Some v \<Rightarrow> Some v
      | None \<Rightarrow> if k \<in> set Object_prototype then Some (Inherited k) else None)"

definition newest :: sort_value where
  "newest = SortBy ''createdAt'' (- 1)"

text \<open>
  \<open>SORT_FIELDS[sort] || SORT_FIELDS.newest\<close>; every value a lookup can find is an
  object or a function, hence truthy.
\<close>

definition sortOption :: "string option \<Rightarrow> sort_value" where
  "sortOption tok =
     (case SORT_FIELDS_get (case tok of None \<Rightarrow> ''newest'' | Some s \<Rightarrow> s) of
        Some v \<Rightarrow> v
      | None \<Rightarrow> newest)"

subsection \<open>The handler\<close>

text \<open>
  The calls a request makes on the store, and the response. \<open>Car_find\<close> and
  \<open>Car_count\<close> stand for the store's answers to \<open>Car.find(query).sort(..).skip(..).limit(..)\<close>
  and \<open>Car.countDocuments(query)\<close>. The answers are values: a store call that throws
  (the handler then answers 500) is not represented, and \<open>skip\<close> and
  \<open>totalPages\<close> are computed exactly where JavaScript rounds to a double.
\<close>

datatype store_call = CarFind query sort_value rat rat | CountDocuments query

datatype list_response =
    Reject400 string
  | Page200 "car list" rat int nat rat

definition get_cars ::
  "(string \<Rightarrow> jsnum) \<Rightarrow> (query \<Rightarrow> sort_value \<Rightarrow> rat \<Rightarrow> rat \<Rightarrow> car list) \<Rightarrow> (query \<Rightarrow> nat) \<Rightarrow>
   params \<Rightarrow> store_call list \<times> list_response" where
  "get_cars toNum Car_find Car_count p =
     (case compile_query toNum p of
        Inl m \<Rightarrow> ([], Reject400 m)
      | Inr qy \<Rightarrow>
          let numLimit = numericLimit toNum (req_limit p);
              numPage = numericPage toNum (req_page p);
              sortOpt = sortOption (req_sort p);
              docs = Car_find qy sortOpt ((numPage - 1) * numLimit) numLimit;
              n = Car_count qy
          in ([CarFind qy sortOpt ((numPage - 1) * numLimit) numLimit, CountDocuments qy],
              Page200 docs numPage (ceiling (of_nat n / numLimit)) n numLimit))"

subsection \<open>Evaluation of the price clauses\<close>

text \<open>
  Modelled from the spec: the record store evaluates the predicate (its query engine is
  not part of the repository). A range bound holds of a field that is present and
  satisfies it; a clause with several bounds needs all of them; \<open>$and\<close> needs every
  sub-clause; \<open>$or\<close> needs one.
\<close>

definition field_num :: "car \<Rightarrow> string \<Rightarrow> rat option" where
  "field_num c path =
     (if path = ''price.min'' then opt_min c
      else if path = ''price.max'' then opt_max c
      else None)"

fun holds_bound :: "rat option \<Rightarrow> bound \<Rightarrow> bool" where
  "holds_bound None b = False"
| "holds_bound (Some v) (Gte x) = (x \<le> v)"
| "holds_bound (Some v) (Lte x) = (v \<le> x)"

fun holds :: "car \<Rightarrow> clause \<Rightarrow> bool" where
  "holds c (Field path bs) = list_all (holds_bound (field_num c path)) bs"
| "holds c (AndClause cs) = list_all (holds c) cs"

definition holds_or :: "car \<Rightarrow> clause list \<Rightarrow> bool" where
  "holds_or c cs = list_ex (holds c) cs"

section \<open>The seed middleware\<close>

text \<open>
  The module state of the seed middleware: \<open>seedAttempted\<close>, and whether
  \<open>seedPromise\<close> holds a promise (\<open>True\<close>) or \<open>null\<close>. JavaScript runs each
  call of \<open>ensureSeedData\<close>, and each stretch of the seed task between two
  \<open>await\<close>s, without interleaving, so a process is modelled as a sequence of such
  atomic steps. The process state also keeps every seed task ever started with its
  position in the task body, the number of calls of \<open>next()\<close>, and the number of calls
  of \<open>seedCars()\<close> (the bulk insert) made by seed tasks.
\<close>

datatype task = Waiting nat | Counting | Seeding | Finished

record process =
  seedAttempted :: bool
  seedPromise :: bool
  tasks :: "task list"
  forwarded :: nat
  seedCalls :: nat

definition init :: process where
  "init = \<lparr>seedAttempted = False, seedPromise = False, tasks = [], forwarded = 0, seedCalls = 0\<rparr>"

text \<open>
  One call of \<open>ensureSeedData\<close>; \<open>dev\<close> is what \<open>isDev()\<close> returns during the
  call. A new task starts at the head of the connection-wait loop with \<open>retries = 0\<close>.
\<close>

definition ensureSeedData :: "bool \<Rightarrow> process \<Rightarrow> process" where
  "ensureSeedData dev s =
     (if seedAttempted s then s\<lparr>forwarded := forwarded s + 1\<rparr>
      else if \<not> dev then s\<lparr>seedAttempted := True, forwarded := forwarded s + 1\<rparr>
      else if seedPromise s then s\<lparr>forwarded := forwarded s + 1\<rparr>
      else s\<lparr>seedAttempted := True, seedPromise := True, tasks := tasks s @ [Waiting 0],
             forwarded := forwarded s + 1\<rparr>)"

text \<open>
  What a seed task observes when it resumes: whether the connection is ready
  (\<open>readyState === 1\<close>) at the loop test, the result of \<open>Car.countDocuments()\<close>, the
  completion of \<open>seedCars()\<close>, or an exception thrown by the awaited call.
\<close>

datatype observation = ConnReady bool | Counted nat | Seeded | Thrown

text \<open>
  One step of a task: its new position, whether it called \<open>seedCars()\<close>, and whether it
  ran the \<open>finally\<close> block. An observation that does not fit the position leaves the
  task where it is.
\<close>

fun task_step :: "task \<Rightarrow> observation \<Rightarrow> task \<times> bool \<times> bool" where
  "task_step (Waiting r) (ConnReady ready) =
     (if \<not> ready \<and> r < 10 then (Waiting (r + 1), False, False)
      else if \<not> ready then (Finished, False, True)
      else (Counting, False, False))"
| "task_step Counting (Counted n) =
     (if n = 0 then (Seeding, True, False) else (Finished, False, True))"
| "task_step Counting Thrown = (Finished, False, True)"
| "task_step Seeding Seeded = (Finished, False, True)"
| "task_step Seeding Thrown = (Finished, False, True)"
| "task_step t ob = (t, False, False)"

datatype event = Request bool | TaskStep nat observation

fun step :: "process \<Rightarrow> event \<Rightarrow> process" where
  "step s (Request dev) = ensureSeedData dev s"
| "step s (TaskStep i ob) =
     (if i < length (tasks s) then
        (case task_step (tasks s ! i) ob of
           (t, seeded, fin) \<Rightarrow>
             s\<lparr>tasks := (tasks s)[i := t],
               seedCalls := (if seeded then seedCalls s + 1 else seedCalls s),
               seedPromise := (if fin then False else seedPromise s)\<rparr>)
      else s)"

definition run :: "event list \<Rightarrow> process" where
  "run es = foldl step init es"

fun is_request :: "event \<Rightarrow> bool" where
  "is_request (Request dev) = True"
| "is_request (TaskStep i ob) = False"

text \<open>
  The observations that the task with index \<open>i\<close> receives in a sequence of events, and
  the number of \<open>seedCars()\<close> calls a task makes from a position on a sequence of
  observations.
\<close>

fun observations :: "nat \<Rightarrow> event list \<Rightarrow> observation list" where
  "observations i [] = []"
| "observations i (Request dev # es) = observations i es"
| "observations i (TaskStep j ob # es) =
     (if j = i then ob # observations i es else observations i es)"

fun seeds_of :: "task \<Rightarrow> observation list \<Rightarrow> nat" where
  "seeds_of t [] = 0"
| "seeds_of t (ob # obs) =
     (case task_step t ob of
        (t', seeded, fin) \<Rightarrow> (if seeded then 1 else 0) + seeds_of t' obs)"

text \<open>A task that has not yet reached the call of \<open>seedCars()\<close>.\<close>

fun pre_seed :: "task \<Rightarrow> bool" where
  "pre_seed (Waiting r) = True"
| "pre_seed Counting = True"
| "pre_seed Seeding = False"
| "pre_seed Finished = False"

definition seed_inv :: "process \<Rightarrow> bool" where
  "seed_inv s =
     ((tasks s = [] \<and> seedCalls s = 0)
      \<or> (\<exists>t. tasks s = [t] \<and> seedAttempted s
            \<and> (seedCalls s = 0 \<or> (seedCalls s = 1 \<and> \<not> pre_seed t))))"

section \<open>The store's batch fetch\<close>

text \<open>
  Modelled from the spec: the record store's batch fetch returns the records of the
  collection whose identifier is among the requested ones, in no particular order.
  The store compares identifiers, not strings: the driver casts each requested string
  to an ObjectId before it matches, and the handler reads an identifier back as
  \<open>_id.toString()\<close>. \<open>cast s\<close> stands for \<open>new ObjectId(s).toString()\<close>, the
  printed form of the identifier that the string \<open>s\<close> denotes; \<open>db\<close> is the
  collection and \<open>cars\<close> an answer of the store.
\<close>

definition store_answer ::
  "(string \<Rightarrow> string) \<Rightarrow> car list \<Rightarrow> string list \<Rightarrow> car list \<Rightarrow> bool" where
  "store_answer cast db ids cars =
     (set cars = set (filter (\<lambda>c. car_id c \<in> cast ` set ids) db))"

text \<open>
  For a string of 24 hexadecimal digits, \<open>new ObjectId(s).toString()\<close> is the same
  digits in lower case.
\<close>

definition ObjectId_toString :: "string \<Rightarrow> string" where
  "ObjectId_toString s = toLowerCase s"

section \<open>Sample data\<close>

text \<open>
  Records, identifiers and request parameters for the examples, with stand-ins for the
  host's built-ins on the values the examples use: \<open>valid24\<close> for
  \<open>ObjectId.isValid\<close> (a string of 24 hexadecimal digits, in either case),
  \<open>inr\<close> for \<open>toLocaleString('en-IN')\<close> and \<open>decimal\<close> for \<open>Number\<close>.
  \<open>id_AU\<close> is \<open>id_A\<close> written in upper case: both denote the same ObjectId.
\<close>

definition sample_car :: "string \<Rightarrow> car" where
  "sample_car i =
     \<lparr>car_id = i, brand = ''TATA'', model = ''Nexon'', bodyType = ''SUV'',
      fuelType = ''Petrol'', transmission = ''Manual'', driveType = Some FWD,
      engine = Some \<lparr>displacement = Some 1199, cylinders = Some 3, turbo = Some True\<rparr>,
      powerBHP = Some 118, torqueNm = Some 170, topSpeed = Some 180,
      zeroToHundred = Some 11, mileage = Some 17, range_km = None,
      price = Some \<lparr>price_min = Some 800000, price_max = Some 1500000\<rparr>,
      launchYear = Some 2017, safetyRating = Some 5, seatingCapacity = Some 5\<rparr>"

definition id_A :: string where
  "id_A = ''aaaaaaaaaaaaaaaaaaaaaaaa''"

definition id_B :: string where
  "id_B = ''bbbbbbbbbbbbbbbbbbbbbbbb''"

definition id_AU :: string where
  "id_AU = ''AAAAAAAAAAAAAAAAAAAAAAAA''"

definition valid24 :: "string \<Rightarrow> bool" where
  "valid24 s = (length s = 24 \<and> list_all (\<lambda>c. c \<in> set ''0123456789abcdefABCDEF'') s)"

definition priced :: "rat option \<Rightarrow> rat option \<Rightarrow> car" where
  "priced a b = (sample_car id_A)\<lparr>price := Some \<lparr>price_min = a, price_max = b\<rparr>\<rparr>"

definition inr :: "rat \<Rightarrow> string" where
  "inr r = (if r = 500000 then ''5,00,000'' else if r = 700000 then ''7,00,000'' else ''0'')"

definition decimal :: "string \<Rightarrow> jsnum" where
  "decimal s =
     (if s = ''1000'' then Num 1000
      else if s = ''-5'' then Num (- 5)
      else if s = ''0'' then Num 0
      else if s = ''25'' then Num 25
      else if s = ''600000'' then Num 600000
      else if s = ''650000'' then Num 650000
      else NaN)"

definition sample_params :: params where
  "sample_params =
     \<lparr>req_page = None, req_limit = None, req_q = Some ''nexon'', req_brand = Some ''tata'',
      req_bodyType = Some ''SUV'', req_fuelType = None, req_transmission = None,
      req_minPrice = Some ''600000'', req_maxPrice = Some ''650000'', req_minPower = None,
      req_launchYear = None, req_discontinued = Some ''false'', req_tags = Some ''city, family'',
      req_sort = None\<rparr>"

section \<open>Properties of the comparison route\<close>

subsection \<open>Re-ordering the fetched records\<close>

lemma find_car_id:
  "i \<in> car_id ` set cars \<Longrightarrow>
   \<exists>c. find (\<lambda>c. car_id c = i) cars = Some c \<and> c \<in> set cars \<and> car_id c = i"
  by (induction cars) auto

lemma find_SomeD:
  "find P xs = Some c \<Longrightarrow> c \<in> set xs \<and> P c"
  by (induction xs) (auto split: if_splits)

lemma ordered_ids:
  "set ids \<subseteq> car_id ` set cars \<Longrightarrow>
   map car_id (List.map_filter (\<lambda>i. find (\<lambda>c. car_id c = i) cars) ids) = ids"
proof (induction ids)
  case Nil
  show ?case by simp
next
  case (Cons i ids)
  then obtain c where "find (\<lambda>c. car_id c = i) cars = Some c" "car_id c = i"
    using find_car_id [of i cars] by auto
  with Cons show ?case by simp
qed

lemma ordered_eq_map:
  "set ids \<subseteq> car_id ` set cars \<Longrightarrow>
   List.map_filter (\<lambda>i. find (\<lambda>c. car_id c = i) cars) ids =
   map (\<lambda>i. the (find (\<lambda>c. car_id c = i) cars)) ids"
proof (induction ids)
  case Nil
  show ?case by simp
next
  case (Cons i ids)
  then obtain c where "find (\<lambda>c. car_id c = i) cars = Some c"
    using find_car_id [of i cars] by auto
  with Cons show ?case by simp
qed

lemma ordered_subset:
  "set (List.map_filter (\<lambda>i. find (\<lambda>c. car_id c = i) cars) ids) \<subseteq> set cars"
proof (induction ids)
  case Nil
  show ?case by simp
next
  case (Cons i ids)
  show ?case
  proof (cases "find (\<lambda>c. car_id c = i) cars")
    case None
    with Cons show ?thesis by simp
  next
    case (Some c)
    with Cons find_SomeD [OF Some] show ?thesis by simp
  qed
qed

lemma missing_empty_iff:
  "(filter (\<lambda>i. i \<notin> set (map car_id cars)) ids = []) = (set ids \<subseteq> car_id ` set cars)"
  by (auto simp: filter_empty_conv)

lemma id_string_IdStr: "map id_string (map IdStr ids) = ids"
  by (induction ids) auto

lemma well_formed_ids:
  "\<forall>i\<in>set ids. i \<noteq> [] \<and> isValid i \<Longrightarrow> filter (invalid_id isValid) (map IdStr ids) = []"
  by (simp add: filter_empty_conv)

lemma no_invalid_ids:
  "filter (invalid_id isValid) elems = [] \<Longrightarrow>
   elems = map IdStr (map id_string elems) \<and> (\<forall>i\<in>set (map id_string elems). i \<noteq> [] \<and> isValid i)"
proof (induction elems)
  case Nil
  show ?case by simp
next
  case (Cons e elems)
  then show ?case by (cases e) (auto split: if_splits)
qed

subsection \<open>The rows of a comparison\<close>

lemma length_specKeys: "length specKeys = 19"
  by (simp add: specKeys_def)

lemma buildComparison_length: "length (buildComparison fmt numStr cars) = 19"
  by (simp add: buildComparison_def length_specKeys)

lemma buildComparison_nth:
  assumes "j < length specKeys"
  shows "row_key (buildComparison fmt numStr cars ! j) = fst (specKeys ! j)"
    and "row_label (buildComparison fmt numStr cars ! j) = snd (specKeys ! j)"
    and "row_values (buildComparison fmt numStr cars ! j) =
           map (\<lambda>c. \<lparr>carId = car_id c, cell_value = spec_value fmt (fst (specKeys ! j)) c\<rparr>) cars"
  using assms by (simp_all add: buildComparison_def build_row_def Let_def)

subsection \<open>Success of a comparison\<close>

text \<open>
  What a 200 response says about the request and the fetched batch, and when the
  response is 200.
\<close>

lemma compare_200D:
  assumes "compare_cars isValid fmt numStr Car_find (IdsArray elems) = Status200 cars rows"
  shows "2 \<le> length elems" "length elems \<le> 4"
    and "filter (invalid_id isValid) elems = []"
    and "set (map id_string elems) \<subseteq> car_id ` set (Car_find (map id_string elems))"
    and "cars = List.map_filter (\<lambda>i. find (\<lambda>c. car_id c = i) (Car_find (map id_string elems)))
           (map id_string elems)"
    and "rows = buildComparison fmt numStr cars"
  using assms
  by (auto simp: compare_cars_def Let_def missing_empty_iff [symmetric]
        simp del: set_map split: if_splits)

lemma compare_ok:
  assumes len: "2 \<le> length ids" "length ids \<le> 4"
    and wf: "\<forall>i\<in>set ids. i \<noteq> [] \<and> isValid i"
    and found: "set ids \<subseteq> car_id ` set (Car_find ids)"
  shows "compare_cars isValid fmt numStr Car_find (IdsArray (map IdStr ids)) =
    Status200 (List.map_filter (\<lambda>i. find (\<lambda>c. car_id c = i) (Car_find ids)) ids)
      (buildComparison fmt numStr
        (List.map_filter (\<lambda>i. find (\<lambda>c. car_id c = i) (Car_find ids)) ids))"
proof -
  let ?cars = "Car_find ids"
  have m: "filter (\<lambda>i. i \<notin> set (map car_id ?cars)) ids = []"
    using found by (simp only: missing_empty_iff)
  have l: "length (List.map_filter (\<lambda>i. find (\<lambda>c. car_id c = i) ?cars) ids) = length ids"
    using ordered_ids [OF found] by (metis length_map)
  show ?thesis
    unfolding compare_cars_def ids_field.case Let_def id_string_IdStr well_formed_ids [OF wf]
    using len m l by simp
qed

lemma compare_404:
  assumes len: "2 \<le> length ids" "length ids \<le> 4"
    and wf: "\<forall>i\<in>set ids. i \<noteq> [] \<and> isValid i"
    and absent: "\<not> set ids \<subseteq> car_id ` set (Car_find ids)"
  shows "compare_cars isValid fmt numStr Car_find (IdsArray (map IdStr ids)) =
    Status404 ''Some cars were not found''
      (filter (\<lambda>i. i \<notin> car_id ` set (Car_find ids)) ids)"
proof -
  have ne: "filter (\<lambda>i. i \<notin> set (map car_id (Car_find ids))) ids \<noteq> []"
    using absent by (simp only: missing_empty_iff) simp
  show ?thesis
    unfolding compare_cars_def ids_field.case Let_def id_string_IdStr well_formed_ids [OF wf]
    using len ne by simp
qed

text \<open>
  Two answers of the store with the same records, none of which share an identifier,
  give the same response.
\<close>

lemma find_unique:
  assumes inj: "inj_on car_id (set cars1)" and eq: "set cars2 = set cars1"
  shows "find (\<lambda>c. car_id c = i) cars2 = find (\<lambda>c. car_id c = i) cars1"
proof (cases "i \<in> car_id ` set cars1")
  case False
  with eq have "find (\<lambda>c. car_id c = i) cars1 = None" "find (\<lambda>c. car_id c = i) cars2 = None"
    by (auto simp: find_None_iff)
  then show ?thesis by simp
next
  case True
  then obtain c1 where c1: "find (\<lambda>c. car_id c = i) cars1 = Some c1" "c1 \<in> set cars1" "car_id c1 = i"
    using find_car_id [of i cars1] by blast
  from True eq obtain c2 where c2: "find (\<lambda>c. car_id c = i) cars2 = Some c2" "c2 \<in> set cars2" "car_id c2 = i"
    using find_car_id [of i cars2] by auto
  from inj eq c1 c2 have "c1 = c2"
    by (auto dest: inj_onD)
  with c1 c2 show ?thesis by simp
qed

lemma compare_order_independent:
  assumes inj: "inj_on car_id (set (find1 (map id_string elems)))"
    and eq: "set (find2 (map id_string elems)) = set (find1 (map id_string elems))"
  shows "compare_cars isValid fmt numStr find2 (IdsArray elems) =
         compare_cars isValid fmt numStr find1 (IdsArray elems)"
proof -
  let ?ids = "map id_string elems"
  have f: "(\<lambda>i. find (\<lambda>c. car_id c = i) (find2 ?ids)) = (\<lambda>i. find (\<lambda>c. car_id c = i) (find1 ?ids))"
    using find_unique [OF inj eq] by auto
  have o: "List.map_filter (\<lambda>i. find (\<lambda>c. car_id c = i) (find2 ?ids)) ?ids =
           List.map_filter (\<lambda>i. find (\<lambda>c. car_id c = i) (find1 ?ids)) ?ids"
    using f by simp
  have mm: "filter (\<lambda>i. i \<notin> set (map car_id (find2 ?ids))) ?ids =
            filter (\<lambda>i. i \<notin> set (map car_id (find1 ?ids))) ?ids"
    using eq by simp
  show ?thesis
    unfolding compare_cars_def ids_field.case Let_def o mm by (rule refl)
qed

subsection \<open>The sample identifiers\<close>

lemma lower_A: "lower_char CHR ''A'' = CHR ''a''"
  by code_simp

lemma lower_b: "lower_char CHR ''b'' = CHR ''b''"
  by code_simp

lemma sample_ids:
  "valid24 id_A" "valid24 id_B" "valid24 id_AU" "id_AU \<noteq> []" "id_B \<noteq> []"
  "ObjectId_toString id_AU = id_A" "ObjectId_toString id_B = id_B"
  "id_AU \<noteq> id_A" "id_B \<noteq> id_A" "id_AU \<noteq> id_B" "id_A \<noteq> []" "id_A \<noteq> id_B"
  by (simp_all add: valid24_def id_A_def id_B_def id_AU_def ObjectId_toString_def
        toLowerCase_def lower_A lower_b)

subsection \<open>Claim C2\<close>

text \<open>
  Claim C2. Whatever batch \<open>Car_find\<close> the store returns, and in whatever order, a
  compare request that answers 200 with \<open>cars\<close> and \<open>rows\<close> has 2 to 4 requested
  ids, all well-formed strings; \<open>cars[i]\<close> is a fetched record whose identifier is \<open>ids[i]\<close>,
  position by position; \<open>rows\<close> is the comparison built from \<open>cars\<close>, with one row
  for each of the 19 keys of \<open>specKeys\<close> in their order; and in every row the value at
  position \<open>i\<close> carries the identifier \<open>ids[i]\<close> and the specification value of
  \<open>cars[i]\<close> for the row's key. Every other answer of the store with the same
  records, none sharing an identifier, leads to the same response. And the request
  does answer 200 when it has 2 to 4 well-formed ids each of which is the identifier
  of a fetched record.
\<close>

theorem compare_keeps_request_order:
  "(compare_cars isValid fmt numStr Car_find (IdsArray elems) = Status200 cars rows \<longrightarrow>
       2 \<le> length elems \<and> length elems \<le> 4
     \<and> filter (invalid_id isValid) elems = []
     \<and> elems = map IdStr (map car_id cars)
     \<and> set cars \<subseteq> set (Car_find (map id_string elems))
     \<and> rows = buildComparison fmt numStr cars
     \<and> length rows = 19
     \<and> map row_key rows = map fst specKeys
     \<and> (\<forall>j<length rows. \<forall>i<length elems.
           row_values (rows ! j) ! i =
             \<lparr>carId = id_string (elems ! i),
              cell_value = spec_value fmt (row_key (rows ! j)) (cars ! i)\<rparr>)
     \<and> (\<forall>r\<in>set rows. length (row_values r) = length elems
           \<and> map carId (row_values r) = map id_string elems
           \<and> map cell_value (row_values r) = map (spec_value fmt (row_key r)) cars)
     \<and> (inj_on car_id (set (Car_find (map id_string elems)))
          \<and> set (Car_find' (map id_string elems)) = set (Car_find (map id_string elems)) \<longrightarrow>
          compare_cars isValid fmt numStr Car_find' (IdsArray elems) = Status200 cars rows))
   \<and> (2 \<le> length ids \<and> length ids \<le> 4 \<and> (\<forall>i\<in>set ids. i \<noteq> [] \<and> isValid i)
        \<and> set ids \<subseteq> car_id ` set (Car_find ids) \<longrightarrow>
      (\<exists>cars rows.
         compare_cars isValid fmt numStr Car_find (IdsArray (map IdStr ids)) = Status200 cars rows))"
proof (intro conjI impI)
  assume h: "2 \<le> length ids \<and> length ids \<le> 4 \<and> (\<forall>i\<in>set ids. i \<noteq> [] \<and> isValid i)
        \<and> set ids \<subseteq> car_id ` set (Car_find ids)"
  then show "\<exists>cars rows.
         compare_cars isValid fmt numStr Car_find (IdsArray (map IdStr ids)) = Status200 cars rows"
    using compare_ok [of ids isValid Car_find fmt numStr] by blast
next
  assume ok: "compare_cars isValid fmt numStr Car_find (IdsArray elems) = Status200 cars rows"
  let ?ids = "map id_string elems"
  note d = compare_200D [OF ok]
  show "2 \<le> length elems" "length elems \<le> 4" "filter (invalid_id isValid) elems = []"
    by (rule d)+
  have ids: "map car_id cars = ?ids"
    unfolding d(5) using d(4) by (rule ordered_ids)
  have el: "elems = map IdStr ?ids"
    using no_invalid_ids [OF d(3)] by blast
  show e: "elems = map IdStr (map car_id cars)"
    using el ids by simp
  show "set cars \<subseteq> set (Car_find ?ids)"
    unfolding d(5) by (rule ordered_subset)
  show r: "rows = buildComparison fmt numStr cars" by (rule d)
  show n: "length rows = 19"
    unfolding r by (rule buildComparison_length)
  show k: "map row_key rows = map fst specKeys"
    unfolding r by (simp add: buildComparison_def build_row_def Let_def comp_def)
  have len: "length cars = length elems"
    using ids by (metis length_map)
  have v: "row_values x = map (\<lambda>c. \<lparr>carId = car_id c, cell_value = spec_value fmt (row_key x) c\<rparr>) cars"
    if "x \<in> set rows" for x
    using that unfolding r by (auto simp: buildComparison_def build_row_def Let_def)
  show "\<forall>j<length rows. \<forall>i<length elems.
           row_values (rows ! j) ! i =
             \<lparr>carId = id_string (elems ! i),
              cell_value = spec_value fmt (row_key (rows ! j)) (cars ! i)\<rparr>"
  proof (intro allI impI)
    fix j i assume j: "j < length rows" and i: "i < length elems"
    from j have "rows ! j \<in> set rows" by simp
    from v [OF this] i len have
      "row_values (rows ! j) ! i =
         \<lparr>carId = car_id (cars ! i), cell_value = spec_value fmt (row_key (rows ! j)) (cars ! i)\<rparr>"
      by simp
    moreover from ids i len have "car_id (cars ! i) = id_string (elems ! i)"
      by (metis nth_map)
    ultimately show "row_values (rows ! j) ! i =
             \<lparr>carId = id_string (elems ! i),
              cell_value = spec_value fmt (row_key (rows ! j)) (cars ! i)\<rparr>"
      by simp
  qed
  show "\<forall>r\<in>set rows. length (row_values r) = length elems
           \<and> map carId (row_values r) = map id_string elems
           \<and> map cell_value (row_values r) = map (spec_value fmt (row_key r)) cars"
  proof
    fix x assume "x \<in> set rows"
    from v [OF this] ids len show "length (row_values x) = length elems
           \<and> map carId (row_values x) = map id_string elems
           \<and> map cell_value (row_values x) = map (spec_value fmt (row_key x)) cars"
      by (simp add: comp_def)
  qed
  show "compare_cars isValid fmt numStr Car_find' (IdsArray elems) = Status200 cars rows"
    if "inj_on car_id (set (Car_find ?ids)) \<and> set (Car_find' ?ids) = set (Car_find ?ids)"
    using that ok compare_order_independent [of Car_find elems Car_find' isValid fmt numStr]
    by simp
qed

text \<open>
  The request \<open>[B, A]\<close> against a store that answers \<open>[A, B]\<close>: the response lists
  \<open>B\<close> first, every row gives the value of \<open>B\<close> first, and the answer \<open>[B, A]\<close>
  of the store leads to the same response.
\<close>

theorem compare_keeps_request_order_witness:
  "\<exists>cars rows.
     compare_cars valid24 inr (\<lambda>r. ''0'') (\<lambda>ids. [sample_car id_A, sample_car id_B])
       (IdsArray (map IdStr [id_B, id_A])) = Status200 cars rows
     \<and> map car_id cars = [id_B, id_A]
     \<and> length rows = 19
     \<and> (\<forall>r\<in>set rows. map carId (row_values r) = [id_B, id_A]
           \<and> map cell_value (row_values r) = map (spec_value inr (row_key r)) cars)
     \<and> compare_cars valid24 inr (\<lambda>r. ''0'') (\<lambda>ids. [sample_car id_B, sample_car id_A])
         (IdsArray (map IdStr [id_B, id_A])) = Status200 cars rows"
proof -
  let ?f = "\<lambda>ids::string list. [sample_car id_A, sample_car id_B]"
  let ?f' = "\<lambda>ids::string list. [sample_car id_B, sample_car id_A]"
  let ?elems = "map IdStr [id_B, id_A]"
  have c: "car_id (sample_car id_A) = id_A" "car_id (sample_car id_B) = id_B"
    by (simp_all add: sample_car_def)
  have h: "2 \<le> length [id_B, id_A] \<and> length [id_B, id_A] \<le> 4
      \<and> (\<forall>i\<in>set [id_B, id_A]. i \<noteq> [] \<and> valid24 i)
      \<and> set [id_B, id_A] \<subseteq> car_id ` set (?f [id_B, id_A])"
    using sample_ids by (simp add: c)
  have u: "inj_on car_id (set (?f (map id_string ?elems)))
      \<and> set (?f' (map id_string ?elems)) = set (?f (map id_string ?elems))"
    using sample_ids by (auto simp: c)
  note e = compare_keeps_request_order [of valid24 inr "\<lambda>r. ''0''" ?f "[]" "[]" "[]" ?f'
      "[id_B, id_A]", THEN conjunct2, rule_format, OF h]
  then obtain cars rows where
    ok: "compare_cars valid24 inr (\<lambda>r. ''0'') ?f (IdsArray ?elems) = Status200 cars rows"
    by (elim exE)
  note t = compare_keeps_request_order [of valid24 inr "\<lambda>r. ''0''" ?f ?elems cars rows ?f'
      "[id_B, id_A]", THEN conjunct1, rule_format, OF ok]
  from t have e: "?elems = map IdStr (map car_id cars)" by blast
  then have "map id_string ?elems = map id_string (map IdStr (map car_id cars))"
    by (rule arg_cong)
  then have 1: "map car_id cars = [id_B, id_A]"
    by (simp only: id_string_IdStr)
  from t have 2: "length rows = 19" by blast
  from t have "\<forall>r\<in>set rows. length (row_values r) = length ?elems
           \<and> map carId (row_values r) = map id_string ?elems
           \<and> map cell_value (row_values r) = map (spec_value inr (row_key r)) cars"
    by blast
  then have 3: "\<forall>r\<in>set rows. map carId (row_values r) = [id_B, id_A]
           \<and> map cell_value (row_values r) = map (spec_value inr (row_key r)) cars"
    by simp
  from t u have 4: "compare_cars valid24 inr (\<lambda>r. ''0'') ?f' (IdsArray ?elems) = Status200 cars rows"
    by blast
  from ok 1 2 3 4 show ?thesis
    by (intro exI conjI)
qed

subsection \<open>Requests in the store's printed form\<close>

text \<open>
  Where every requested string is the printed form of the identifier it denotes
  (\<open>cast i = i\<close>, as for lower-case hexadecimal digits), the handler's string
  comparison agrees with the store: a request with an id that has no record answers
  404 with exactly the ids that have none, and a request whose ids all have records
  answers 200, repeated ids included.
\<close>

lemma store_answer_ids:
  "store_answer cast db ids cars \<Longrightarrow> car_id ` set cars = car_id ` set db \<inter> cast ` set ids"
  by (auto simp: store_answer_def)

lemma printed_ids_found:
  assumes st: "store_answer cast db ids cars" and pr: "\<forall>i\<in>set ids. cast i = i"
  shows "i \<in> set ids \<Longrightarrow> (i \<in> car_id ` set cars) = (i \<in> car_id ` set db)"
proof -
  from pr have "cast ` set ids = set ids" by force
  with store_answer_ids [OF st] show "i \<in> set ids \<Longrightarrow> ?thesis" by auto
qed

lemma printed_ids_missing:
  assumes len: "2 \<le> length ids" "length ids \<le> 4"
    and wf: "\<forall>i\<in>set ids. i \<noteq> [] \<and> isValid i"
    and st: "store_answer cast db ids (Car_find ids)"
    and pr: "\<forall>i\<in>set ids. cast i = i"
    and absent: "\<exists>i\<in>set ids. i \<notin> car_id ` set db"
  shows "compare_cars isValid fmt numStr Car_find (IdsArray (map IdStr ids)) =
           Status404 ''Some cars were not found'' (filter (\<lambda>i. i \<notin> car_id ` set db) ids)
         \<and> filter (\<lambda>i. i \<notin> car_id ` set db) ids \<noteq> []"
proof -
  have eq: "filter (\<lambda>i. i \<notin> car_id ` set (Car_find ids)) ids =
            filter (\<lambda>i. i \<notin> car_id ` set db) ids"
    using printed_ids_found [OF st pr] by (intro filter_cong) auto
  have ne: "filter (\<lambda>i. i \<notin> car_id ` set db) ids \<noteq> []"
    using absent by (simp add: filter_empty_conv)
  from absent printed_ids_found [OF st pr] have "\<not> set ids \<subseteq> car_id ` set (Car_find ids)"
    by blast
  with len wf have "compare_cars isValid fmt numStr Car_find (IdsArray (map IdStr ids)) =
      Status404 ''Some cars were not found''
        (filter (\<lambda>i. i \<notin> car_id ` set (Car_find ids)) ids)"
    by (rule compare_404)
  with eq ne show ?thesis by simp
qed

lemma printed_ids_compared:
  assumes len: "2 \<le> length ids" "length ids \<le> 4"
    and wf: "\<forall>i\<in>set ids. i \<noteq> [] \<and> isValid i"
    and st: "store_answer cast db ids (Car_find ids)"
    and pr: "\<forall>i\<in>set ids. cast i = i"
    and found: "set ids \<subseteq> car_id ` set db"
  shows "\<exists>cars rows.
           compare_cars isValid fmt numStr Car_find (IdsArray (map IdStr ids)) = Status200 cars rows
           \<and> map car_id cars = ids
           \<and> (\<forall>i<length ids. \<forall>j<length ids. ids ! i = ids ! j \<longrightarrow> cars ! i = cars ! j)
           \<and> rows = buildComparison fmt numStr cars"
proof -
  let ?cars = "List.map_filter (\<lambda>i. find (\<lambda>c. car_id c = i) (Car_find ids)) ids"
  have c2: "set ids \<subseteq> car_id ` set (Car_find ids)"
    using found printed_ids_found [OF st pr] by blast
  have c1: "compare_cars isValid fmt numStr Car_find (IdsArray (map IdStr ids)) =
      Status200 ?cars (buildComparison fmt numStr ?cars)"
    using len wf c2 by (rule compare_ok)
  have o: "map car_id ?cars = ids"
    using ordered_ids [OF c2] .
  have m: "?cars = map (\<lambda>i. the (find (\<lambda>c. car_id c = i) (Car_find ids))) ids"
    using ordered_eq_map [OF c2] .
  have p: "\<forall>i<length ids. \<forall>j<length ids. ids ! i = ids ! j \<longrightarrow> ?cars ! i = ?cars ! j"
    by (simp add: m)
  from c1 o p show ?thesis by blast
qed

subsection \<open>Claim C7\<close>

text \<open>
  Claim C7 says that a compare request with an id that has no record answers 404 with
  exactly the missing ids. The request \<open>[AU, B]\<close> is well-formed; \<open>AU\<close> denotes the
  identifier of a stored record, which the store returns, and \<open>B\<close> has no record, so
  the missing ids are \<open>[B]\<close>. The handler compares the requested string \<open>AU\<close> with
  the lower-case \<open>_id.toString()\<close> of the fetched record, finds them different, and
  answers 404 with \<open>missing: [AU, B]\<close>.
\<close>

theorem compare_reports_found_id_missing:
  "valid24 id_AU \<and> valid24 id_B
   \<and> store_answer ObjectId_toString [sample_car id_A] [id_AU, id_B] [sample_car id_A]
   \<and> filter (\<lambda>i. ObjectId_toString i \<notin> car_id ` set [sample_car id_A]) [id_AU, id_B] = [id_B]
   \<and> compare_cars valid24 inr (\<lambda>r. ''0'') (\<lambda>ids. [sample_car id_A])
        (IdsArray [IdStr id_AU, IdStr id_B]) =
      Status404 ''Some cars were not found'' [id_AU, id_B]"
proof -
  have c: "car_id (sample_car id_A) = id_A"
    by (simp add: sample_car_def)
  have s: "store_answer ObjectId_toString [sample_car id_A] [id_AU, id_B] [sample_car id_A]"
    by (simp add: store_answer_def sample_ids c)
  have m: "filter (\<lambda>i. ObjectId_toString i \<notin> car_id ` set [sample_car id_A]) [id_AU, id_B] = [id_B]"
    by (simp add: sample_ids c)
  have r: "compare_cars valid24 inr (\<lambda>r. ''0'') (\<lambda>ids. [sample_car id_A])
        (IdsArray [IdStr id_AU, IdStr id_B]) =
      Status404 ''Some cars were not found'' [id_AU, id_B]"
    by (simp add: compare_cars_def sample_ids c)
  from s m r sample_ids(2,3) show ?thesis by blast
qed

subsection \<open>Claim C10\<close>

text \<open>
  Claim C10 says that a compare request with a repeated id, every listed id having a
  record, answers 200. The request \<open>[AU, AU]\<close> is well-formed and repeats an id
  whose record is stored and returned by the store; the handler compares the string
  \<open>AU\<close> with the lower-case \<open>_id.toString()\<close> of the fetched record and answers
  404 with \<open>missing: [AU, AU]\<close>.
\<close>

theorem compare_rejects_found_duplicates:
  "valid24 id_AU \<and> \<not> distinct [id_AU, id_AU]
   \<and> store_answer ObjectId_toString [sample_car id_A] [id_AU, id_AU] [sample_car id_A]
   \<and> ObjectId_toString id_AU \<in> car_id ` set [sample_car id_A]
   \<and> compare_cars valid24 inr (\<lambda>r. ''0'') (\<lambda>ids. [sample_car id_A])
        (IdsArray [IdStr id_AU, IdStr id_AU]) =
      Status404 ''Some cars were not found'' [id_AU, id_AU]"
proof -
  have c: "car_id (sample_car id_A) = id_A"
    by (simp add: sample_car_def)
  have s: "store_answer ObjectId_toString [sample_car id_A] [id_AU, id_AU] [sample_car id_A]"
    by (simp add: store_answer_def sample_ids c)
  have e: "ObjectId_toString id_AU \<in> car_id ` set [sample_car id_A]"
    by (simp add: sample_ids c)
  have r: "compare_cars valid24 inr (\<lambda>r. ''0'') (\<lambda>ids. [sample_car id_A])
        (IdsArray [IdStr id_AU, IdStr id_AU]) =
      Status404 ''Some cars were not found'' [id_AU, id_AU]"
    by (simp add: compare_cars_def sample_ids c)
  from s e r sample_ids(3) show ?thesis by simp
qed

section \<open>Properties of the comparison rows\<close>



subsection \<open>Claim C8\<close>

lemma not_truthy_iff: "(a \<in> {None, Some 0}) = (\<not> truthy a)"
  by (cases a) auto

lemma price_both:
  "opt_min c = Some x \<Longrightarrow> opt_max c = Some y \<Longrightarrow> x \<noteq> 0 \<Longrightarrow> y \<noteq> 0 \<Longrightarrow>
   price_value fmt c =
     (if x = y then JStr (rupee @ fmt x) else JStr (rupee @ fmt x @ '' - '' @ rupee @ fmt y))"
  by (simp add: price_value_def)

lemma price_only_min:
  "opt_min c = Some x \<Longrightarrow> x \<noteq> 0 \<Longrightarrow> \<not> truthy (opt_max c) \<Longrightarrow>
   price_value fmt c = JStr (rupee @ fmt x)"
  by (simp add: price_value_def)

lemma price_only_max:
  "\<not> truthy (opt_min c) \<Longrightarrow> opt_max c = Some y \<Longrightarrow> y \<noteq> 0 \<Longrightarrow>
   price_value fmt c = JStr (rupee @ fmt y)"
  by (simp add: price_value_def)

lemma price_neither:
  "\<not> truthy (opt_min c) \<Longrightarrow> \<not> truthy (opt_max c) \<Longrightarrow> price_value fmt c = JNull"
  by (simp add: price_value_def)

lemma opt_priced: "opt_min (priced a b) = a" "opt_max (priced a b) = b"
  by (simp_all add: opt_min_def opt_max_def priced_def)

text \<open>
  Claim C8, as stated, fails where a bound is zero. A record with
  \<open>price.min = price.max = 0\<close> has equal bounds, yet its price cell is \<open>null\<close> and
  not the formatted single value; a record with \<open>price.min = 0\<close> and
  \<open>price.max = 700000\<close> has both bounds present and different, yet its cell is not the
  hyphenated range.
\<close>

theorem price_cell_zero_counterexample:
  "opt_min (priced (Some 0) (Some 0)) = opt_max (priced (Some 0) (Some 0))
   \<and> price_value inr (priced (Some 0) (Some 0)) = JNull
   \<and> price_value inr (priced (Some 0) (Some 0)) \<noteq> JStr (rupee @ inr 0)
   \<and> opt_min (priced (Some 0) (Some 700000)) = Some 0
   \<and> opt_max (priced (Some 0) (Some 700000)) = Some 700000
   \<and> price_value inr (priced (Some 0) (Some 700000)) \<noteq>
       JStr (rupee @ inr 0 @ '' - '' @ rupee @ inr 700000)"
  by (simp add: opt_priced price_value_def inr_def rupee_def)

text \<open>
  Claim C8, amended: a bound counts as present only when it is a number other than
  zero. The price cell is the single formatted value when both bounds are present and
  equal; the hyphenated range when both are present and differ; the formatted present
  bound when exactly one is present; and \<open>null\<close> when neither is present. Here
  \<open>opt_min c\<close> and \<open>opt_max c\<close> are \<open>c.price?.min\<close> and \<open>c.price?.max\<close>.
\<close>

theorem price_cell_cases:
  "(opt_min c = Some x \<and> opt_max c = Some y \<and> x \<noteq> 0 \<and> y \<noteq> 0 \<and> x = y
      \<longrightarrow> price_value fmt c = JStr (rupee @ fmt x))
   \<and> (opt_min c = Some x \<and> opt_max c = Some y \<and> x \<noteq> 0 \<and> y \<noteq> 0 \<and> x \<noteq> y
      \<longrightarrow> price_value fmt c = JStr (rupee @ fmt x @ '' - '' @ rupee @ fmt y))
   \<and> (opt_min c = Some x \<and> x \<noteq> 0 \<and> opt_max c \<in> {None, Some 0}
      \<longrightarrow> price_value fmt c = JStr (rupee @ fmt x))
   \<and> (opt_min c \<in> {None, Some 0} \<and> opt_max c = Some y \<and> y \<noteq> 0
      \<longrightarrow> price_value fmt c = JStr (rupee @ fmt y))
   \<and> (opt_min c \<in> {None, Some 0} \<and> opt_max c \<in> {None, Some 0}
      \<longrightarrow> price_value fmt c = JNull)"
proof (intro conjI impI)
  assume "opt_min c = Some x \<and> opt_max c = Some y \<and> x \<noteq> 0 \<and> y \<noteq> 0 \<and> x = y"
  then show "price_value fmt c = JStr (rupee @ fmt x)"
    using price_both [of c x y fmt] by simp
next
  assume "opt_min c = Some x \<and> opt_max c = Some y \<and> x \<noteq> 0 \<and> y \<noteq> 0 \<and> x \<noteq> y"
  then show "price_value fmt c = JStr (rupee @ fmt x @ '' - '' @ rupee @ fmt y)"
    using price_both [of c x y fmt] by simp
next
  assume "opt_min c = Some x \<and> x \<noteq> 0 \<and> opt_max c \<in> {None, Some 0}"
  then show "price_value fmt c = JStr (rupee @ fmt x)"
    unfolding not_truthy_iff using price_only_min [of c x fmt] by blast
next
  assume "opt_min c \<in> {None, Some 0} \<and> opt_max c = Some y \<and> y \<noteq> 0"
  then show "price_value fmt c = JStr (rupee @ fmt y)"
    unfolding not_truthy_iff using price_only_max [of c y fmt] by blast
next
  assume "opt_min c \<in> {None, Some 0} \<and> opt_max c \<in> {None, Some 0}"
  then show "price_value fmt c = JNull"
    unfolding not_truthy_iff using price_neither [of c fmt] by blast
qed

text \<open>One record for each of the five cases.\<close>

theorem price_cell_cases_witness:
  "price_value inr (priced (Some 500000) (Some 500000)) = JStr (rupee @ ''5,00,000'')
   \<and> price_value inr (priced (Some 500000) (Some 700000)) =
       JStr (rupee @ ''5,00,000'' @ '' - '' @ rupee @ ''7,00,000'')
   \<and> price_value inr (priced (Some 500000) None) = JStr (rupee @ ''5,00,000'')
   \<and> price_value inr (priced (Some 0) (Some 700000)) = JStr (rupee @ ''7,00,000'')
   \<and> price_value inr (priced None None) = JNull"
  using price_cell_cases [of "priced (Some 500000) (Some 500000)" 500000 500000 inr]
    price_cell_cases [of "priced (Some 500000) (Some 700000)" 500000 700000 inr]
    price_cell_cases [of "priced (Some 500000) None" 500000 0 inr]
    price_cell_cases [of "priced (Some 0) (Some 700000)" 0 700000 inr]
    price_cell_cases [of "priced None None" 0 0 inr]
  by (simp add: opt_priced inr_def)

subsection \<open>Claim C9\<close>









section \<open>Properties of the listing route\<close>

lemma or_unchanged_after_price:
  "power_filter toNum p q1 = Inr q2 \<Longrightarrow> qry_or q2 = qry_or q1"
  "year_filter toNum p q2 = Inr q3 \<Longrightarrow> qry_or q3 = qry_or q2"
  "qry_or (discontinued_filter p q) = qry_or q"
  "qry_or (tags_filter p q) = qry_or q"
  by (auto simp: power_filter_def year_filter_def discontinued_filter_def tags_filter_def Let_def
        split: option.splits jsnum.splits if_splits)

lemma price_filter_both:
  assumes "req_minPrice p = Some a" "a \<noteq> []" "toNum a = Num lo"
    and "req_maxPrice p = Some b" "b \<noteq> []" "toNum b = Num hi"
  shows "price_filter toNum p qy =
     (if lo > hi then Inl ''minPrice cannot be greater than maxPrice''
      else Inr (qy\<lparr>qry_or := Some (range_clauses lo hi)\<rparr>))"
  using assms by (simp add: price_filter_def number_or_null_def)

lemma compile_query_price_error:
  "price_filter toNum p
     (transmission_filter p (fuelType_filter p (bodyType_filter p
        (brand_filter p (text_filter p empty_query))))) = Inl m \<Longrightarrow>
   compile_query toNum p = Inl m"
  by (simp add: compile_query_def)

lemma compile_query_or:
  assumes pf: "price_filter toNum p
     (transmission_filter p (fuelType_filter p (bodyType_filter p
        (brand_filter p (text_filter p empty_query))))) = Inr q1"
    and c: "compile_query toNum p = Inr qy"
  shows "qry_or qy = qry_or q1"
proof -
  from c pf obtain q2 q3 where
    "power_filter toNum p q1 = Inr q2" "year_filter toNum p q2 = Inr q3"
    "qy = tags_filter p (discontinued_filter p q3)"
    by (auto simp: compile_query_def split: sum.splits)
  then show ?thesis
    by (simp add: or_unchanged_after_price)
qed

subsection \<open>Claim C4\<close>

text \<open>
  Claim C4. A listing request whose \<open>minPrice\<close> and \<open>maxPrice\<close> are both present
  and numeric with \<open>minPrice > maxPrice\<close> is answered 400 with the message
  \<open>minPrice cannot be greater than maxPrice\<close>, whatever the other parameters are, and
  the list of store calls of the request is empty: neither \<open>find\<close> nor
  \<open>countDocuments\<close> is issued.
\<close>

theorem min_above_max_rejected:
  assumes "req_minPrice p = Some a" "a \<noteq> []" "toNum a = Num lo"
    and "req_maxPrice p = Some b" "b \<noteq> []" "toNum b = Num hi"
    and "lo > hi"
  shows "get_cars toNum Car_find Car_count p =
           ([], Reject400 ''minPrice cannot be greater than maxPrice'')"
proof -
  have "price_filter toNum p
     (transmission_filter p (fuelType_filter p (bodyType_filter p
        (brand_filter p (text_filter p empty_query))))) =
      Inl ''minPrice cannot be greater than maxPrice''"
    using assms by (simp add: price_filter_both)
  then have "compile_query toNum p = Inl ''minPrice cannot be greater than maxPrice''"
    by (rule compile_query_price_error)
  then show ?thesis
    by (simp add: get_cars_def)
qed

text \<open>
  \<open>minPrice=1000\<close>, \<open>maxPrice=25\<close>, together with other filters and an invalid
  \<open>minPower\<close>: the price check answers first.
\<close>

theorem min_above_max_rejected_witness:
  "get_cars decimal (\<lambda>q s k l. [sample_car id_A]) (\<lambda>q. 1)
     (sample_params\<lparr>req_minPrice := Some ''1000'', req_maxPrice := Some ''25'',
        req_minPower := Some ''abc''\<rparr>) =
   ([], Reject400 ''minPrice cannot be greater than maxPrice'')"
  using min_above_max_rejected [of
      "sample_params\<lparr>req_minPrice := Some ''1000'', req_maxPrice := Some ''25'',
        req_minPower := Some ''abc''\<rparr>" "''1000''" decimal 1000 "''25''" 25
      "\<lambda>q s k l. [sample_car id_A]" "\<lambda>q. 1"]
  by (simp add: decimal_def)

subsection \<open>Claim C3\<close>

lemma holds_or_range:
  "holds_or c (range_clauses lo hi) \<longleftrightarrow>
     (\<exists>v. opt_min c = Some v \<and> lo \<le> v \<and> v \<le> hi)
     \<or> (\<exists>v. opt_max c = Some v \<and> lo \<le> v \<and> v \<le> hi)
     \<or> (\<exists>v w. opt_min c = Some v \<and> opt_max c = Some w \<and> v \<le> lo \<and> hi \<le> w)"
proof -
  have a: "holds c (Field ''price.min'' [Gte lo, Lte hi]) \<longleftrightarrow>
             (\<exists>v. opt_min c = Some v \<and> lo \<le> v \<and> v \<le> hi)"
    by (cases "opt_min c") (simp_all add: field_num_def)
  have b: "holds c (Field ''price.max'' [Gte lo, Lte hi]) \<longleftrightarrow>
             (\<exists>v. opt_max c = Some v \<and> lo \<le> v \<and> v \<le> hi)"
    by (cases "opt_max c") (simp_all add: field_num_def)
  have d: "holds c (AndClause [Field ''price.min'' [Lte lo], Field ''price.max'' [Gte hi]]) \<longleftrightarrow>
             (\<exists>v w. opt_min c = Some v \<and> opt_max c = Some w \<and> v \<le> lo \<and> hi \<le> w)"
    by (cases "opt_min c"; cases "opt_max c") (simp_all add: field_num_def)
  show ?thesis
    unfolding holds_or_def range_clauses_def list_ex_iff using a b d by auto
qed

text \<open>
  Claim C3. For a listing request with numeric \<open>minPrice = lo\<close> and
  \<open>maxPrice = hi\<close>, \<open>lo \<le> hi\<close>, the price block sets \<open>query.$or\<close> to the three
  clauses of \<open>range_clauses lo hi\<close>, and that is the \<open>$or\<close> of the compiled query
  whenever the remaining filters are accepted. A record satisfies the clauses exactly
  when (a) its \<open>price.min\<close> lies in \<open>[lo, hi]\<close>, or (b) its \<open>price.max\<close> lies in
  \<open>[lo, hi]\<close>, or (c) its \<open>price.min \<le> lo\<close> and its \<open>price.max \<ge> hi\<close>. Hence
  a record with a price interval \<open>[rmin, rmax]\<close> is matched exactly when the interval
  meets \<open>[lo, hi]\<close> (inside it, containing it or overlapping it), and is excluded when
  it lies strictly outside.
\<close>

theorem price_range_predicate:
  assumes mn: "req_minPrice p = Some a" "a \<noteq> []" "toNum a = Num lo"
    and mx: "req_maxPrice p = Some b" "b \<noteq> []" "toNum b = Num hi"
    and le: "lo \<le> hi"
  shows "price_filter toNum p qy = Inr (qy\<lparr>qry_or := Some (range_clauses lo hi)\<rparr>)
    \<and> (\<forall>qy'. compile_query toNum p = Inr qy' \<longrightarrow> qry_or qy' = Some (range_clauses lo hi))
    \<and> (holds_or c (range_clauses lo hi) \<longleftrightarrow>
         (\<exists>v. opt_min c = Some v \<and> lo \<le> v \<and> v \<le> hi)
         \<or> (\<exists>v. opt_max c = Some v \<and> lo \<le> v \<and> v \<le> hi)
         \<or> (\<exists>v w. opt_min c = Some v \<and> opt_max c = Some w \<and> v \<le> lo \<and> hi \<le> w))
    \<and> (opt_min c = Some rmin \<and> opt_max c = Some rmax \<and> rmin \<le> rmax \<longrightarrow>
         (holds_or c (range_clauses lo hi) \<longleftrightarrow> rmin \<le> hi \<and> lo \<le> rmax))
    \<and> (opt_min c = Some rmin \<and> opt_max c = Some rmax \<and> rmin \<le> rmax
         \<and> (rmax < lo \<or> hi < rmin) \<longrightarrow> \<not> holds_or c (range_clauses lo hi))"
proof (intro conjI allI impI)
  show pf: "price_filter toNum p qy = Inr (qy\<lparr>qry_or := Some (range_clauses lo hi)\<rparr>)" for qy
    using mn mx le by (simp add: price_filter_both)
  show "qry_or qy' = Some (range_clauses lo hi)" if "compile_query toNum p = Inr qy'" for qy'
    using compile_query_or [OF pf that] by simp
  show "holds_or c (range_clauses lo hi) \<longleftrightarrow>
         (\<exists>v. opt_min c = Some v \<and> lo \<le> v \<and> v \<le> hi)
         \<or> (\<exists>v. opt_max c = Some v \<and> lo \<le> v \<and> v \<le> hi)
         \<or> (\<exists>v w. opt_min c = Some v \<and> opt_max c = Some w \<and> v \<le> lo \<and> hi \<le> w)"
    by (rule holds_or_range)
  show "holds_or c (range_clauses lo hi) \<longleftrightarrow> rmin \<le> hi \<and> lo \<le> rmax"
    if "opt_min c = Some rmin \<and> opt_max c = Some rmax \<and> rmin \<le> rmax"
    using that le unfolding holds_or_range by auto
  show "\<not> holds_or c (range_clauses lo hi)"
    if "opt_min c = Some rmin \<and> opt_max c = Some rmax \<and> rmin \<le> rmax \<and> (rmax < lo \<or> hi < rmin)"
    using that le unfolding holds_or_range by auto
qed


text \<open>
  The query \<open>[600000, 650000]\<close>: the record \<open>[500000, 700000]\<close> matches, as do a
  record inside the range and one overlapping it; records below and above do not.
\<close>

lemma compile_sample:
  "\<exists>qy. compile_query decimal sample_params = Inr qy"
  by (simp add: compile_query_def sample_params_def price_filter_def number_or_null_def
        decimal_def power_filter_def year_filter_def)

theorem price_range_predicate_witness:
  "(\<exists>qy. compile_query decimal sample_params = Inr qy
         \<and> qry_or qy = Some (range_clauses 600000 650000))
   \<and> holds_or (priced (Some 500000) (Some 700000)) (range_clauses 600000 650000)
   \<and> holds_or (priced (Some 610000) (Some 640000)) (range_clauses 600000 650000)
   \<and> holds_or (priced (Some 640000) (Some 900000)) (range_clauses 600000 650000)
   \<and> \<not> holds_or (priced (Some 100000) (Some 200000)) (range_clauses 600000 650000)
   \<and> \<not> holds_or (priced (Some 700000) (Some 900000)) (range_clauses 600000 650000)"
proof -
  have mn: "req_minPrice sample_params = Some ''600000''" "''600000'' \<noteq> []"
      "decimal ''600000'' = Num 600000"
    and mx: "req_maxPrice sample_params = Some ''650000''" "''650000'' \<noteq> []"
      "decimal ''650000'' = Num 650000"
    and le: "(600000::rat) \<le> 650000"
    by (simp_all add: sample_params_def decimal_def)
  note t = price_range_predicate [OF mn mx le]
  obtain qy where q: "compile_query decimal sample_params = Inr qy"
    using compile_sample by blast
  with t [of empty_query "sample_car id_A" 0 0]
  have "qry_or qy = Some (range_clauses 600000 650000)"
    by blast
  with q have 1: "\<exists>qy. compile_query decimal sample_params = Inr qy
         \<and> qry_or qy = Some (range_clauses 600000 650000)"
    by blast
  have 2: "holds_or (priced (Some 500000) (Some 700000)) (range_clauses 600000 650000)"
    using t [of empty_query "priced (Some 500000) (Some 700000)" 500000 700000]
    by (simp add: opt_priced)
  have 3: "holds_or (priced (Some 610000) (Some 640000)) (range_clauses 600000 650000)"
    using t [of empty_query "priced (Some 610000) (Some 640000)" 610000 640000]
    by (simp add: opt_priced)
  have 4: "holds_or (priced (Some 640000) (Some 900000)) (range_clauses 600000 650000)"
    using t [of empty_query "priced (Some 640000) (Some 900000)" 640000 900000]
    by (simp add: opt_priced)
  have 5: "\<not> holds_or (priced (Some 100000) (Some 200000)) (range_clauses 600000 650000)"
    using t [of empty_query "priced (Some 100000) (Some 200000)" 100000 200000]
    by (simp add: opt_priced)
  have 6: "\<not> holds_or (priced (Some 700000) (Some 900000)) (range_clauses 600000 650000)"
    using t [of empty_query "priced (Some 700000) (Some 900000)" 700000 900000]
    by (simp add: opt_priced)
  from 1 2 3 4 5 6 show ?thesis by blast
qed

subsection \<open>Claim C5\<close>

text \<open>
  Claim C5, as stated, fails at \<open>limit=0\<close>: the requested value \<open>0\<close> clamped into
  \<open>[1, 50]\<close> is \<open>1\<close>, but \<open>Number(limit) || 12\<close> takes \<open>0\<close> for a missing
  value and the page size is \<open>12\<close>.
\<close>

theorem limit_zero_counterexample:
  "decimal ''0'' = Num 0
   \<and> numericLimit decimal (Some ''0'') = 12
   \<and> min (max (0::rat) 1) 50 = 1
   \<and> numericLimit decimal (Some ''0'') \<noteq> min (max 0 1) 50"
  by (simp add: numericLimit_def number_of_param_def decimal_def)

text \<open>
  Claim C5, amended: a numeric limit other than zero gives the page size
  \<open>min (max limit 1) 50\<close>; a limit that is zero, not numeric or absent gives the
  default \<open>12\<close>; the page size always lies in \<open>[1, 50]\<close>. A numeric page gives
  \<open>max page 1\<close>; a page that is not numeric or absent gives \<open>1\<close>.
\<close>

theorem limit_and_page_resolution:
  "(toNum s = Num x \<and> x \<noteq> 0 \<longrightarrow> numericLimit toNum (Some s) = min (max x 1) 50)
   \<and> (toNum s = Num 0 \<or> toNum s = NaN \<longrightarrow> numericLimit toNum (Some s) = 12)
   \<and> numericLimit toNum None = 12
   \<and> 1 \<le> numericLimit toNum l \<and> numericLimit toNum l \<le> 50
   \<and> (toNum s = Num x \<longrightarrow> numericPage toNum (Some s) = max x 1)
   \<and> (toNum s = NaN \<longrightarrow> numericPage toNum (Some s) = 1)
   \<and> numericPage toNum None = 1"
proof (intro conjI impI)
  show "numericLimit toNum (Some s) = min (max x 1) 50" if "toNum s = Num x \<and> x \<noteq> 0"
    using that by (simp add: numericLimit_def number_of_param_def)
  show "numericLimit toNum (Some s) = 12" if "toNum s = Num 0 \<or> toNum s = NaN"
    using that by (auto simp: numericLimit_def number_of_param_def)
  show "numericLimit toNum None = 12"
    by (simp add: numericLimit_def number_of_param_def)
  show "1 \<le> numericLimit toNum l" "numericLimit toNum l \<le> 50"
    by (simp_all add: numericLimit_def)
  show "numericPage toNum (Some s) = max x 1" if "toNum s = Num x"
    using that by (simp add: numericPage_def number_of_param_def)
  show "numericPage toNum (Some s) = 1" if "toNum s = NaN"
    using that by (simp add: numericPage_def number_of_param_def)
  show "numericPage toNum None = 1"
    by (simp add: numericPage_def number_of_param_def)
qed

text \<open>\<open>limit=1000\<close> gives 50, \<open>limit=-5\<close> gives 1, \<open>limit=abc\<close> gives 12.\<close>

theorem limit_and_page_resolution_witness:
  "numericLimit decimal (Some ''1000'') = 50
   \<and> numericLimit decimal (Some ''-5'') = 1
   \<and> numericLimit decimal (Some ''25'') = 25
   \<and> numericLimit decimal (Some ''abc'') = 12
   \<and> numericLimit decimal (Some ''0'') = 12
   \<and> numericPage decimal (Some ''-5'') = 1
   \<and> numericPage decimal (Some ''abc'') = 1"
  using limit_and_page_resolution [of decimal "''1000''" 1000 None]
    limit_and_page_resolution [of decimal "''-5''" "- 5" None]
    limit_and_page_resolution [of decimal "''25''" 25 None]
    limit_and_page_resolution [of decimal "''abc''" 0 None]
    limit_and_page_resolution [of decimal "''0''" 0 None]
  by (simp add: decimal_def)

subsection \<open>Claim C6\<close>

text \<open>
  Claim C6 says that every sort token outside the ten keys of \<open>SORT_FIELDS\<close> resolves
  to the specification of \<open>newest\<close>. The token \<open>constructor\<close> is not one of the
  ten keys, yet \<open>SORT_FIELDS['constructor']\<close> finds the member inherited from
  \<open>Object.prototype\<close>, which is truthy, so the fallback \<open>|| SORT_FIELDS.newest\<close>
  is not taken and the resolved value is not the specification of \<open>newest\<close>.
\<close>

theorem sort_inherited_key:
  "map_of SORT_FIELDS ''constructor'' = None
   \<and> sortOption (Some ''constructor'') = Inherited ''constructor''
   \<and> sortOption (Some ''constructor'') \<noteq> sortOption (Some ''newest'')
   \<and> sortOption (Some ''newest'') = SortBy ''createdAt'' (- 1)"
  by (simp add: sortOption_def SORT_FIELDS_get_def SORT_FIELDS_def Object_prototype_def)

text \<open>
  A token that is neither a key of the table nor a member of \<open>Object.prototype\<close>
  does fall back to \<open>newest\<close>.
\<close>

lemma sort_fallback:
  assumes "tok \<notin> fst ` set SORT_FIELDS" "tok \<notin> set Object_prototype"
  shows "sortOption (Some tok) = newest"
proof -
  from assms(1) have "map_of SORT_FIELDS tok = None"
    by (simp add: map_of_eq_None_iff)
  with assms(2) show ?thesis
    by (simp add: sortOption_def SORT_FIELDS_get_def)
qed

section \<open>Properties of the seed middleware\<close>

subsection \<open>At most one seed task\<close>

lemma seed_inv_init: "seed_inv init"
  by (simp add: seed_inv_def init_def)

lemma seed_inv_request: "seed_inv s \<Longrightarrow> seed_inv (ensureSeedData dev s)"
  by (auto simp: seed_inv_def ensureSeedData_def)

lemma task_step_seeded:
  "task_step t ob = (t', True, fin) \<Longrightarrow> pre_seed t \<and> \<not> pre_seed t'"
  by (cases t; cases ob) (auto split: if_splits)

lemma task_step_pre_seed:
  "task_step t ob = (t', seeded, fin) \<Longrightarrow> \<not> pre_seed t \<Longrightarrow> \<not> pre_seed t' \<and> \<not> seeded"
  by (cases t; cases ob) (auto split: if_splits)

lemma seed_inv_task: "seed_inv s \<Longrightarrow> seed_inv (step s (TaskStep i ob))"
proof -
  assume inv: "seed_inv s"
  show ?thesis
  proof (cases "i < length (tasks s)")
    case False
    with inv show ?thesis by simp
  next
    case True
    with inv obtain t where t: "tasks s = [t]" "i = 0" "seedAttempted s"
      and c: "seedCalls s = 0 \<or> (seedCalls s = 1 \<and> \<not> pre_seed t)"
      by (auto simp: seed_inv_def)
    obtain t' seeded fin where ts: "task_step t ob = (t', seeded, fin)"
      by (cases "task_step t ob") auto
    show ?thesis
    proof (cases seeded)
      case True
      with ts task_step_seeded [of t ob t' fin] c t show ?thesis
        by (auto simp: seed_inv_def)
    next
      case False
      with ts task_step_pre_seed [of t ob t' seeded fin] c t show ?thesis
        by (auto simp: seed_inv_def)
    qed
  qed
qed

lemma seed_inv_step: "seed_inv s \<Longrightarrow> seed_inv (step s e)"
  by (cases e) (simp_all add: seed_inv_request seed_inv_task del: step.simps(2))

lemma seed_inv_foldl: "seed_inv s \<Longrightarrow> seed_inv (foldl step s es)"
  by (induction es arbitrary: s) (simp_all add: seed_inv_step del: step.simps)

lemma seed_inv_run: "seed_inv (run es)"
  unfolding run_def by (rule seed_inv_foldl [OF seed_inv_init])

lemma forwarded_request: "forwarded (ensureSeedData dev s) = forwarded s + 1"
  by (simp add: ensureSeedData_def)

lemma forwarded_step:
  "forwarded (step s e) = forwarded s + (if is_request e then 1 else 0)"
  by (cases e) (auto simp: forwarded_request split: prod.splits)

lemma forwarded_foldl:
  "forwarded (foldl step s es) = forwarded s + length (filter is_request es)"
  by (induction es arbitrary: s) (simp_all add: forwarded_step del: step.simps)

lemma seeds_of_done:
  "\<not> pre_seed t \<Longrightarrow> seeds_of t obs = 0"
proof (induction obs arbitrary: t)
  case Nil
  show ?case by simp
next
  case (Cons ob obs)
  obtain t' seeded fin where ts: "task_step t ob = (t', seeded, fin)"
    by (cases "task_step t ob") auto
  with Cons task_step_pre_seed [OF ts] show ?case
    by simp
qed

lemma seeds_of_waiting:
  "r + k \<le> 10 \<Longrightarrow>
   seeds_of (Waiting r) (replicate k (ConnReady False) @ ConnReady True # Counted 0 # rest) = 1"
proof (induction k arbitrary: r)
  case 0
  show ?case by (simp add: seeds_of_done)
next
  case (Suc k)
  then have "r < 10" "Suc r + k \<le> 10" by simp_all
  with Suc.IH [of "Suc r"] show ?case by simp
qed

lemma step_single_task:
  assumes "tasks s = [t]" "seedAttempted s"
  shows "seedCalls (foldl step s es) = seedCalls s + seeds_of t (observations 0 es)
         \<and> length (tasks (foldl step s es)) = 1"
  using assms
proof (induction es arbitrary: s t)
  case Nil
  then show ?case by simp
next
  case (Cons e es)
  show ?case
  proof (cases e)
    case (Request dev)
    with Cons.prems have "tasks (step s e) = [t]" "seedAttempted (step s e)"
        "seedCalls (step s e) = seedCalls s"
      by (simp_all add: ensureSeedData_def)
    with Cons.IH [of "step s e" t] Request show ?thesis
      by simp
  next
    case (TaskStep i ob)
    show ?thesis
    proof (cases "i = 0")
      case False
      with TaskStep Cons.prems have "step s e = s" by simp
      with Cons.IH [of s t] Cons.prems TaskStep False show ?thesis by simp
    next
      case True
      obtain t' seeded fin where ts: "task_step t ob = (t', seeded, fin)"
        by (cases "task_step t ob") auto
      with True TaskStep Cons.prems have "tasks (step s e) = [t']" "seedAttempted (step s e)"
        "seedCalls (step s e) = seedCalls s + (if seeded then 1 else 0)"
        by simp_all
      with Cons.IH [of "step s e" t'] TaskStep True ts show ?thesis
        by simp
    qed
  qed
qed

lemma step_no_task:
  assumes "tasks s = []" "seedAttempted s" "seedCalls s = 0"
  shows "tasks (foldl step s es) = [] \<and> seedCalls (foldl step s es) = 0"
  using assms
proof (induction es arbitrary: s)
  case Nil
  then show ?case by simp
next
  case (Cons e es)
  from Cons.prems have "tasks (step s e) = [] \<and> seedAttempted (step s e) \<and> seedCalls (step s e) = 0"
    by (cases e) (simp_all add: ensureSeedData_def)
  with Cons.IH [of "step s e"] show ?case by simp
qed

subsection \<open>Claim C1\<close>

text \<open>
  Claim C1, amended. For every sequence of events of a process (requests with any
  values of \<open>isDev()\<close>, steps of seed tasks with any observations): at most one seed
  task is ever started and seed tasks call \<open>seedCars()\<close> at most once; every request
  is forwarded by \<open>next()\<close> within its own call of the middleware, whatever the seed task is
  doing. When the first request finds seeding not permitted, no seed task is ever
  started and no bulk insert is made. When the first request finds seeding permitted,
  exactly one seed task is started; if that task finds the connection ready after at
  most ten waits and counts zero records, exactly one bulk insert is made, however
  many requests arrive in between.
\<close>

theorem seed_task_at_most_once:
  "length (tasks (run es)) \<le> 1
   \<and> seedCalls (run es) \<le> 1
   \<and> forwarded (run es) = length (filter is_request es)
   \<and> forwarded (ensureSeedData dev s) = forwarded s + 1
   \<and> tasks (run (Request False # es)) = []
   \<and> seedCalls (run (Request False # es)) = 0
   \<and> length (tasks (run (Request True # es))) = 1
   \<and> (k \<le> 10 \<and> observations 0 es =
          replicate k (ConnReady False) @ ConnReady True # Counted 0 # rest
        \<longrightarrow> seedCalls (run (Request True # es)) = 1)"
proof (intro conjI impI)
  have inv: "seed_inv (run es)" by (rule seed_inv_run)
  then show "length (tasks (run es)) \<le> 1" "seedCalls (run es) \<le> 1"
    by (auto simp: seed_inv_def)
  show "forwarded (run es) = length (filter is_request es)"
    by (simp add: run_def forwarded_foldl init_def)
  show "forwarded (ensureSeedData dev s) = forwarded s + 1"
    by (rule forwarded_request)
  have off: "tasks (step init (Request False)) = []" "seedAttempted (step init (Request False))"
      "seedCalls (step init (Request False)) = 0"
    by (simp_all add: ensureSeedData_def init_def)
  from step_no_task [OF off, of es]
  show "tasks (run (Request False # es)) = []" "seedCalls (run (Request False # es)) = 0"
    by (simp_all add: run_def del: step.simps)
  have on: "tasks (step init (Request True)) = [Waiting 0]" "seedAttempted (step init (Request True))"
    and z: "seedCalls (step init (Request True)) = 0"
    by (simp_all add: ensureSeedData_def init_def)
  note st = step_single_task [OF on, of es]
  from st show "length (tasks (run (Request True # es))) = 1"
    by (simp add: run_def del: step.simps)
  show "seedCalls (run (Request True # es)) = 1"
    if "k \<le> 10 \<and> observations 0 es =
          replicate k (ConnReady False) @ ConnReady True # Counted 0 # rest"
    using that st z seeds_of_waiting [of 0 k rest]
    by (simp add: run_def del: step.simps)
qed

text \<open>
  Six requests around one seed task that waits once, finds the connection ready and
  the collection empty: one bulk insert.
\<close>

theorem seed_task_at_most_once_witness:
  "seedCalls (run [Request True, Request True, TaskStep 0 (ConnReady False), Request True,
      TaskStep 0 (ConnReady True), Request False, TaskStep 0 (Counted 0), Request True,
      TaskStep 0 Seeded, Request True]) = 1"
proof -
  have "(1::nat) \<le> 10 \<and> observations 0 [Request True, TaskStep 0 (ConnReady False), Request True,
      TaskStep 0 (ConnReady True), Request False, TaskStep 0 (Counted 0), Request True,
      TaskStep 0 Seeded, Request True] =
      replicate 1 (ConnReady False) @ ConnReady True # Counted 0 # [Seeded]"
    by simp
  with seed_task_at_most_once [of "[Request True, TaskStep 0 (ConnReady False), Request True,
      TaskStep 0 (ConnReady True), Request False, TaskStep 0 (Counted 0), Request True,
      TaskStep 0 Seeded, Request True]" True init 1 "[Seeded]"]
  show ?thesis by blast
qed

text \<open>
  Claim C1, as stated, fails where seeding is not permitted: two first requests to an
  empty store outside development mode start no seed task, and no bulk insert is made
  (not exactly one).
\<close>

theorem seed_not_permitted_counterexample:
  "seedCalls (run [Request False, Request False, TaskStep 0 (ConnReady True),
      TaskStep 0 (Counted 0)]) = 0
   \<and> tasks (run [Request False, Request False, TaskStep 0 (ConnReady True),
      TaskStep 0 (Counted 0)]) = []"
  by (simp add: run_def init_def ensureSeedData_def)

end
